theory Spec2Isabelle
  imports Main "HOL-Library.AList" "HOL-Library.Word"
begin

section \<open>The native driver interface (\<^verbatim>\<open>ps3eye_capi.h\<close>)\<close>

text \<open>
  The enums of the \<^verbatim>\<open>cdef extern\<close> block of \<^verbatim>\<open>cameras.pyx\<close>, in declaration order.
\<close>

datatype ps3eye_format = PS3EYE_FORMAT_BAYER | PS3EYE_FORMAT_RGB | PS3EYE_FORMAT_BGR

datatype ps3eye_parameter =
    PS3EYE_AUTO_GAIN
  | PS3EYE_GAIN
  | PS3EYE_AUTO_WHITEBALANCE
  | PS3EYE_AUTO_EXPOSURE
  | PS3EYE_EXPOSURE
  | PS3EYE_SHARPNESS
  | PS3EYE_CONTRAST
  | PS3EYE_BRIGHTNESS
  | PS3EYE_HUE
  | PS3EYE_REDBALANCE
  | PS3EYE_BLUEBALANCE
  | PS3EYE_GREENBALANCE
  | PS3EYE_HFLIP
  | PS3EYE_VFLIP

text \<open>
  The driver is external: the module only sees the calls it makes and what they return.
  Every low-level call is recorded, with its arguments and its result, in the order it
  is issued.
\<close>

datatype event =
    Init
  | Uninit
  | CountConnected int
  | Open int int int int ps3eye_format bool
  | Close int
  | GrabFrame int
  | GetParameter int ps3eye_parameter int
  | SetParameter int ps3eye_parameter int

type_synonym byte = "8 word"

text \<open>
  What the hardware answers is not decided by the module. A driver gives the answer of
  each call from the whole history of calls before it, so nothing is assumed about it.
\<close>

record driver =
  count_connected :: "event list \<Rightarrow> int"
  open_result :: "event list \<Rightarrow> int \<Rightarrow> int \<Rightarrow> int \<Rightarrow> int \<Rightarrow> ps3eye_format \<Rightarrow> bool"
  parameter_value :: "event list \<Rightarrow> int \<Rightarrow> ps3eye_parameter \<Rightarrow> int"
  frame_data :: "event list \<Rightarrow> int \<Rightarrow> byte list"

section \<open>Python values, errors and warnings\<close>

text \<open>
  Control values are Python integers and booleans. \<^verbatim>\<open>bool\<close> is a subclass of \<^verbatim>\<open>int\<close>:
  \<^verbatim>\<open>True == 1\<close> and \<^verbatim>\<open>False == 0\<close>, which is the equality of \<^verbatim>\<open>in\<close> and \<^verbatim>\<open>!=\<close>.
\<close>

datatype pyval = PyBool bool | PyInt int

fun int_of :: "pyval \<Rightarrow> int" where
  "int_of (PyBool b) = (if b then 1 else 0)"
| "int_of (PyInt i) = i"

definition py_eq :: "pyval \<Rightarrow> pyval \<Rightarrow> bool" where
  "py_eq a b = (int_of a = int_of b)"

fun py_in :: "pyval \<Rightarrow> pyval list \<Rightarrow> bool" where
  "py_in v [] = False"
| "py_in v (x # xs) = (py_eq x v \<or> py_in v xs)"

definition py_range :: "int \<Rightarrow> pyval list" where
  "py_range n = map PyInt [0..n - 1]"

datatype error =
    KeyError
  | IndexError
  | OverflowError
  | ValueError
  | AttributeError
  | NoCameraAvailable int int
  | CameraFailedToInitialize int

text \<open>
  The two warnings of \<^verbatim>\<open>CtrlList.__setitem__\<close>; each formats the control's name, its
  allowed values and the requested value. \<^verbatim>\<open>warnings.warn\<close> is taken under the default
  filters: it reports the warning and returns.
\<close>

datatype warning =
    AdjustmentAborted string "pyval list" pyval
  | AdjustmentFailed string "pyval list" pyval

record world =
  calls :: "event list"
  warnings :: "warning list"

type_synonym 'a prog = "world \<Rightarrow> (error + 'a) \<times> world"

definition ret :: "'a \<Rightarrow> 'a prog" where
  "ret x w = (Inr x, w)"

definition raise :: "error \<Rightarrow> 'a prog" where
  "raise e w = (Inl e, w)"

definition bind :: "'a prog \<Rightarrow> ('a \<Rightarrow> 'b prog) \<Rightarrow> 'b prog" where
  "bind m f w = (case m w of (Inl e, w') \<Rightarrow> (Inl e, w') | (Inr x, w') \<Rightarrow> f x w')"

definition warn :: "warning \<Rightarrow> unit prog" where
  "warn msg w = (Inr (), w\<lparr>warnings := warnings w @ [msg]\<rparr>)"

definition log :: "event \<Rightarrow> world \<Rightarrow> world" where
  "log e w = w\<lparr>calls := calls w @ [e]\<rparr>"

text \<open>
  An argument declared \<^verbatim>\<open>int\<close> in the extern block is converted from the Python integer
  before the C function runs; a value outside the 32-bit range raises \<^verbatim>\<open>OverflowError\<close>
  and the call is not made.
\<close>

definition c_int :: "int \<Rightarrow> int prog" where
  "c_int i = (if - (2 ^ 31) \<le> i \<and> i < 2 ^ 31 then ret i else raise OverflowError)"

definition ps3eye_init :: "unit prog" where
  "ps3eye_init w = (Inr (), log Init w)"

definition ps3eye_uninit :: "unit prog" where
  "ps3eye_uninit w = (Inr (), log Uninit w)"

definition ps3eye_count_connected :: "driver \<Rightarrow> int prog" where
  "ps3eye_count_connected D w =
     (let n = count_connected D (calls w) in (Inr n, log (CountConnected n) w))"

definition ps3eye_open ::
  "driver \<Rightarrow> int \<Rightarrow> int \<Rightarrow> int \<Rightarrow> int \<Rightarrow> ps3eye_format \<Rightarrow> bool prog" where
  "ps3eye_open D i width height rate fmt =
     bind (c_int i) (\<lambda>ci. bind (c_int width) (\<lambda>cw. bind (c_int height) (\<lambda>ch.
     bind (c_int rate) (\<lambda>cf. (\<lambda>w.
       let ok = open_result D (calls w) ci cw ch cf fmt
       in (Inr ok, log (Open ci cw ch cf fmt ok) w))))))"

definition ps3eye_close :: "int \<Rightarrow> unit prog" where
  "ps3eye_close i = bind (c_int i) (\<lambda>ci w. (Inr (), log (Close ci) w))"

definition ps3eye_get_parameter :: "driver \<Rightarrow> int \<Rightarrow> ps3eye_parameter \<Rightarrow> int prog" where
  "ps3eye_get_parameter D i p =
     bind (c_int i) (\<lambda>ci w.
       let v = parameter_value D (calls w) ci p in (Inr v, log (GetParameter ci p v) w))"

text \<open>The module never looks at what \<^verbatim>\<open>ps3eye_set_parameter\<close> returns.\<close>

definition ps3eye_set_parameter :: "int \<Rightarrow> ps3eye_parameter \<Rightarrow> pyval \<Rightarrow> unit prog" where
  "ps3eye_set_parameter i p v =
     bind (c_int i) (\<lambda>ci. bind (c_int (int_of v)) (\<lambda>cv w.
       (Inr (), log (SetParameter ci p cv) w)))"

text \<open>
  \<^verbatim>\<open>ps3eye_grab_frame\<close> writes through the pointer it is given: the buffer keeps its
  size, and the frame's bytes replace its contents from the start.
\<close>

definition overwrite :: "byte list \<Rightarrow> byte list \<Rightarrow> byte list" where
  "overwrite frame buf = take (length buf) (frame @ drop (length frame) buf)"

definition ps3eye_grab_frame :: "driver \<Rightarrow> int \<Rightarrow> byte list \<Rightarrow> byte list prog" where
  "ps3eye_grab_frame D i buf =
     bind (c_int i) (\<lambda>ci w.
       (Inr (overwrite (frame_data D (calls w) ci) buf), log (GrabFrame ci) w))"

section \<open>The Python API\<close>

definition cam_count :: "driver \<Rightarrow> int prog" where
  "cam_count D =
     bind ps3eye_init (\<lambda>_. bind (ps3eye_count_connected D) (\<lambda>n.
     bind ps3eye_uninit (\<lambda>_. ret n)))"

subsection \<open>The parameter table \<^verbatim>\<open>Camera._PARAMS\<close>\<close>

text \<open>
  A dict literal; iteration follows the order of the literal, so it is kept as an
  association list. The \<^verbatim>\<open>PS3EYE_AUTO_EXPOSURE\<close> line is commented out in the source.
\<close>

definition PARAMS :: "(ps3eye_parameter \<times> string \<times> pyval list) list" where
  "PARAMS =
     [(PS3EYE_AUTO_GAIN, ''auto_gain'', [PyBool True, PyBool False]),
      (PS3EYE_AUTO_WHITEBALANCE, ''auto_whitebalance'', [PyBool True, PyBool False]),
      (PS3EYE_GAIN, ''gain'', py_range 64),
      (PS3EYE_EXPOSURE, ''exposure'', py_range 256),
      (PS3EYE_SHARPNESS, ''sharpness'', py_range 64),
      (PS3EYE_CONTRAST, ''contrast'', py_range 256),
      (PS3EYE_BRIGHTNESS, ''brightness'', py_range 256),
      (PS3EYE_HUE, ''hue'', py_range 256),
      (PS3EYE_REDBALANCE, ''red_balance'', py_range 256),
      (PS3EYE_BLUEBALANCE, ''blue_balance'', py_range 256),
      (PS3EYE_GREENBALANCE, ''green_balance'', py_range 256),
      (PS3EYE_HFLIP, ''hflip'', [PyBool True, PyBool False]),
      (PS3EYE_VFLIP, ''vflip'', [PyBool True, PyBool False])]"

definition RES_SMALL :: int where
  "RES_SMALL = 0"

definition RES_LARGE :: int where
  "RES_LARGE = 1"

definition RESOLUTION :: "(int \<times> int \<times> int) list" where
  "RESOLUTION = [(RES_SMALL, (320, 240)), (RES_LARGE, (640, 480))]"

text \<open>Subscripting a dict: \<^verbatim>\<open>KeyError\<close> on a missing key.\<close>

definition getitem :: "('k \<times> 'v) list \<Rightarrow> 'k \<Rightarrow> 'v prog" where
  "getitem d k = (case map_of d k of None \<Rightarrow> raise KeyError | Some v \<Rightarrow> ret v)"

subsection \<open>\<^verbatim>\<open>class CtrlList(list)\<close>\<close>

record CtrlList =
  items :: "pyval list"
  param_id :: ps3eye_parameter
  nm :: string
  valid :: "pyval list"

definition CtrlList_init :: "pyval list \<Rightarrow> ps3eye_parameter \<Rightarrow> CtrlList prog" where
  "CtrlList_init xs pid =
     bind (getitem PARAMS pid) (\<lambda>(name, vals).
       ret \<lparr>items = xs, param_id = pid, nm = name, valid = vals\<rparr>)"

text \<open>
  \<^verbatim>\<open>list.__setitem__\<close> with an integer index: a negative index counts from the end, an
  index outside the list raises \<^verbatim>\<open>IndexError\<close>.
\<close>

definition list_setitem :: "'a list \<Rightarrow> int \<Rightarrow> 'a \<Rightarrow> 'a list prog" where
  "list_setitem xs pos v =
     (let n = int (length xs); j = (if pos < 0 then pos + n else pos)
      in if 0 \<le> j \<and> j < n then ret (xs[nat j := v]) else raise IndexError)"

definition CtrlList_setitem :: "driver \<Rightarrow> CtrlList \<Rightarrow> int \<Rightarrow> pyval \<Rightarrow> CtrlList prog" where
  "CtrlList_setitem D self pos val =
     (if \<not> py_in val (valid self) then
        bind (warn (AdjustmentAborted (nm self) (valid self) val)) (\<lambda>_. ret self)
      else
        bind (ps3eye_set_parameter pos (param_id self) val) (\<lambda>_.
        bind (ps3eye_get_parameter D pos (param_id self)) (\<lambda>conf.
          if \<not> py_eq (PyInt conf) val then
            bind (warn (AdjustmentFailed (nm self) (valid self) val)) (\<lambda>_. ret self)
          else
            bind (list_setitem (items self) pos val) (\<lambda>xs. ret (self\<lparr>items := xs\<rparr>)))))"

subsection \<open>\<^verbatim>\<open>class Camera\<close>\<close>

text \<open>
  \<^verbatim>\<open>buffers\<close> is a dict keyed by device index. The controls are attributes set by
  name with \<^verbatim>\<open>setattr\<close>, kept here as the association list \<open>ctrls\<close>. The
  attributes \<^verbatim>\<open>w\<close>, \<^verbatim>\<open>h\<close> and \<^verbatim>\<open>_ended\<close> are the fields \<open>cam_w\<close>, \<open>cam_h\<close> and
  \<open>ended\<close>. The constructor also registers \<^verbatim>\<open>end\<close> with \<^verbatim>\<open>atexit\<close>: that is one more
  call of \<^verbatim>\<open>end\<close>, made by the interpreter when it exits.
\<close>

record Camera =
  ids :: "int list"
  resolution :: "int \<times> int"
  cam_w :: int
  cam_h :: int
  fps :: int
  format :: ps3eye_format
  depth :: int
  buffers :: "(int \<times> byte list) list"
  ctrls :: "(string \<times> CtrlList) list"
  ended :: bool

text \<open>The first argument of the constructor: one index, or a sequence of them.\<close>

datatype ids_arg = Single int | Many "int list"

fun normalize_ids :: "ids_arg \<Rightarrow> int list" where
  "normalize_ids (Single i) = [i]"
| "normalize_ids (Many xs) = xs"

text \<open>\<^verbatim>\<open>np.bytes_(n)\<close>, taken as the constructor of \<^verbatim>\<open>bytes\<close>: \<open>n\<close> zero bytes.\<close>

definition np_bytes :: "int \<Rightarrow> byte list" where
  "np_bytes n = replicate (nat n) 0"

text \<open>The loop \<^verbatim>\<open>for _id in self.ids\<close> of the constructor.\<close>

fun open_all :: "driver \<Rightarrow> int \<Rightarrow> Camera \<Rightarrow> int list \<Rightarrow> Camera prog" where
  "open_all D count self [] = ret self"
| "open_all D count self (i # rest) =
     (if i \<ge> count then
        bind ps3eye_uninit (\<lambda>_. raise (NoCameraAvailable i count))
      else
        bind (ps3eye_open D i (cam_w self) (cam_h self) (fps self) (format self)) (\<lambda>success.
          if \<not> success then raise (CameraFailedToInitialize i)
          else open_all D count
                 (self\<lparr>buffers :=
                    AList.update i (np_bytes (cam_w self * cam_h self * depth self))
                      (buffers self)\<rparr>)
                 rest))"

text \<open>The comprehension \<^verbatim>\<open>[ps3eye_get_parameter(i, pconst) for i in self.ids]\<close>.\<close>

fun get_all :: "driver \<Rightarrow> ps3eye_parameter \<Rightarrow> int list \<Rightarrow> pyval list prog" where
  "get_all D p [] = ret []"
| "get_all D p (i # rest) =
     bind (ps3eye_get_parameter D i p) (\<lambda>v.
     bind (get_all D p rest) (\<lambda>vs. ret (PyInt v # vs)))"

text \<open>The loop \<^verbatim>\<open>for pconst,(pname,valid) in self._PARAMS.items()\<close>.\<close>

fun make_ctrls ::
  "driver \<Rightarrow> Camera \<Rightarrow> (ps3eye_parameter \<times> string \<times> pyval list) list \<Rightarrow> Camera prog" where
  "make_ctrls D self [] = ret self"
| "make_ctrls D self ((pconst, pname, vals) # rest) =
     bind (get_all D pconst (ids self)) (\<lambda>vs.
     bind (CtrlList_init vs pconst) (\<lambda>c.
       make_ctrls D (self\<lparr>ctrls := AList.update pname c (ctrls self)\<rparr>) rest))"

definition Camera_init :: "driver \<Rightarrow> ids_arg \<Rightarrow> int \<Rightarrow> int \<Rightarrow> bool \<Rightarrow> Camera prog" where
  "Camera_init D ids0 res rate color =
     bind (getitem RESOLUTION res) (\<lambda>(width, height).
       let self = \<lparr>ids = normalize_ids ids0, resolution = (width, height),
                   cam_w = width, cam_h = height, fps = rate,
                   format = (if color then PS3EYE_FORMAT_RGB else PS3EYE_FORMAT_RGB),
                   depth = (if color then 3 else 3),
                   buffers = [], ctrls = [], ended = False\<rparr>
       in bind ps3eye_init (\<lambda>_.
          bind (ps3eye_count_connected D) (\<lambda>count.
          bind (open_all D count self (ids self)) (\<lambda>self.
          bind (make_ctrls D self PARAMS) (\<lambda>self.
            ret (self\<lparr>ended := False\<rparr>))))))"

text \<open>
  An image is a view over a buffer of the session, named by the buffer's key, with the
  shape given to \<^verbatim>\<open>reshape\<close>. An array of \<open>n\<close> bytes reshapes to \<open>[h, w, d]\<close> only
  when \<open>h * w * d = n\<close>; otherwise numpy raises \<^verbatim>\<open>ValueError\<close>.
\<close>

record view =
  base :: int
  shape :: "int list"

definition reshape :: "int \<Rightarrow> byte list \<Rightarrow> int list \<Rightarrow> view prog" where
  "reshape key buf dims =
     (if list_all (\<lambda>d. 0 \<le> d) dims \<and> prod_list dims = int (length buf)
      then ret \<lparr>base = key, shape = dims\<rparr> else raise ValueError)"

text \<open>The loop of \<^verbatim>\<open>Camera.read\<close>, with \<open>imgs\<close> as the accumulator.\<close>

fun read_loop :: "driver \<Rightarrow> Camera \<Rightarrow> int list \<Rightarrow> view list \<Rightarrow> (Camera \<times> view list) prog" where
  "read_loop D self [] imgs = ret (self, imgs)"
| "read_loop D self (i # rest) imgs =
     bind (getitem (buffers self) i) (\<lambda>buf.
     bind (ps3eye_grab_frame D i buf) (\<lambda>buf'.
       let self' = self\<lparr>buffers := AList.update i buf' (buffers self)\<rparr>
       in bind (reshape i buf' [cam_h self', cam_w self', depth self']) (\<lambda>img.
            read_loop D self' rest (imgs @ [img]))))"

definition Camera_read :: "driver \<Rightarrow> Camera \<Rightarrow> (Camera \<times> view list) prog" where
  "Camera_read D self = read_loop D self (ids self) []"

fun close_all :: "int list \<Rightarrow> unit prog" where
  "close_all [] = ret ()"
| "close_all (i # rest) = bind (ps3eye_close i) (\<lambda>_. close_all rest)"

definition Camera_end :: "Camera \<Rightarrow> Camera prog" where
  "Camera_end self =
     (if \<not> ended self then
        bind (close_all (ids self)) (\<lambda>_.
        bind ps3eye_uninit (\<lambda>_. ret (self\<lparr>ended := True\<rparr>)))
      else ret self)"

text \<open>
  The statement \<^verbatim>\<open>cam.<name>[pos] = val\<close>: the attribute is looked up by name
  (\<^verbatim>\<open>AttributeError\<close> when there is none) and its \<^verbatim>\<open>__setitem__\<close> runs. The list
  object is mutated in place, so the session sees the new contents.
\<close>

definition Camera_setitem :: "driver \<Rightarrow> Camera \<Rightarrow> string \<Rightarrow> int \<Rightarrow> pyval \<Rightarrow> Camera prog" where
  "Camera_setitem D self name pos val =
     (case map_of (ctrls self) name of
        None \<Rightarrow> raise AttributeError
      | Some c \<Rightarrow>
          bind (CtrlList_setitem D c pos val) (\<lambda>c'.
            ret (self\<lparr>ctrls := AList.update name c' (ctrls self)\<rparr>)))"

section \<open>Notions used to state the properties\<close>

text \<open>
  The range of a C \<^verbatim>\<open>int\<close>, and the test that picks the get-parameter calls of one
  control out of a trace.
\<close>

definition fits_c_int :: "int \<Rightarrow> bool" where
  "fits_c_int i = (- (2 ^ 31) \<le> i \<and> i < 2 ^ 31)"

fun is_get :: "ps3eye_parameter \<Rightarrow> event \<Rightarrow> bool" where
  "is_get p (GetParameter i q v) = (p = q)"
| "is_get p _ = False"

text \<open>
  Two drivers to run the module on. The first has \<open>n\<close> cameras, opens the indices
  \<open>0 .. n - 1\<close>, and reads a parameter back as it was last set (\<open>v0\<close> before any
  write). The second never takes a write: every parameter reads \<open>v0\<close>.
\<close>

fun last_set :: "int \<Rightarrow> ps3eye_parameter \<Rightarrow> event list \<Rightarrow> int option" where
  "last_set i p [] = None"
| "last_set i p (SetParameter j q v # rest) =
     (case last_set i p rest of Some x \<Rightarrow> Some x
      | None \<Rightarrow> if j = i \<and> q = p then Some v else None)"
| "last_set i p (_ # rest) = last_set i p rest"

definition sim_driver :: "int \<Rightarrow> int \<Rightarrow> driver" where
  "sim_driver n v0 =
     \<lparr>count_connected = (\<lambda>_. n),
      open_result = (\<lambda>_ i _ _ _ _. 0 \<le> i \<and> i < n),
      parameter_value = (\<lambda>tr i p. case last_set i p tr of Some v \<Rightarrow> v | None \<Rightarrow> v0),
      frame_data = (\<lambda>_ _. [])\<rparr>"

definition deaf_driver :: "int \<Rightarrow> int \<Rightarrow> driver" where
  "deaf_driver n v0 = (sim_driver n v0)\<lparr>parameter_value := (\<lambda>_ _ _. v0)\<rparr>"

definition world0 :: world where
  "world0 = \<lparr>calls = [], warnings = []\<rparr>"

definition gain_ctrl :: CtrlList where
  "gain_ctrl = \<lparr>items = [PyInt 7, PyInt 9], param_id = PS3EYE_GAIN, nm = ''gain'',
                 valid = py_range 64\<rparr>"

definition vflip_ctrl :: CtrlList where
  "vflip_ctrl = \<lparr>items = [PyInt 0], param_id = PS3EYE_VFLIP, nm = ''vflip'',
                  valid = [PyBool True, PyBool False]\<rparr>"

text \<open>
  The calls issued between two states of the world.
\<close>

definition new_calls :: "world \<Rightarrow> world \<Rightarrow> event list" where
  "new_calls w w' = drop (length (calls w)) (calls w')"

text \<open>
  The sessions a caller can hold: what the constructor returns, and what \<^verbatim>\<open>read\<close>, a
  write to a control and \<^verbatim>\<open>end\<close> make of a session, in any order and any number of
  times.
\<close>

inductive session :: "driver \<Rightarrow> Camera \<Rightarrow> bool" for D :: driver where
  opened: "Camera_init D a res rate color w = (Inr cam, w') \<Longrightarrow> session D cam"
| after_read: "session D cam \<Longrightarrow> Camera_read D cam w = (Inr (cam', imgs), w') \<Longrightarrow> session D cam'"
| after_write:
    "session D cam \<Longrightarrow> Camera_setitem D cam name pos val w = (Inr cam', w') \<Longrightarrow> session D cam'"
| after_end: "session D cam \<Longrightarrow> Camera_end cam w = (Inr cam', w') \<Longrightarrow> session D cam'"

text \<open>
  What every session satisfies: its dimensions come from the resolution table, its
  indices are C \<^verbatim>\<open>int\<close>s, and each of them has a buffer of \<open>height * width * depth\<close>
  bytes.
\<close>

definition session_inv :: "Camera \<Rightarrow> bool" where
  "session_inv cam \<longleftrightarrow>
     (cam_w cam, cam_h cam) \<in> snd ` set RESOLUTION \<and> depth cam = 3
     \<and> (\<forall>i \<in> set (ids cam). fits_c_int i
           \<and> (\<exists>buf. map_of (buffers cam) i = Some buf
                 \<and> int (length buf) = cam_h cam * cam_w cam * depth cam))"

text \<open>
  A third driver, on which every open fails, and the session that the constructor
  builds on the second driver for the indices 0 and 1.
\<close>

definition stuck_driver :: "int \<Rightarrow> int \<Rightarrow> driver" where
  "stuck_driver n v0 = (deaf_driver n v0)\<lparr>open_result := (\<lambda>_ _ _ _ _ _. False)\<rparr>"

definition demo_cam :: Camera where
  "demo_cam =
     \<lparr>ids = [0, 1], resolution = (320, 240), cam_w = 320, cam_h = 240, fps = 60,
      format = PS3EYE_FORMAT_RGB, depth = 3,
      buffers = [(0, np_bytes 230400), (1, np_bytes 230400)],
      ctrls = map (\<lambda>(p, name, vals).
                (name, \<lparr>items = [PyInt 999, PyInt 999], param_id = p, nm = name,
                         valid = vals\<rparr>)) PARAMS,
      ended = False\<rparr>"

definition demo_world :: world where
  "demo_world =
     \<lparr>calls = [Init, CountConnected 2, Open 0 320 240 60 PS3EYE_FORMAT_RGB True,
               Open 1 320 240 60 PS3EYE_FORMAT_RGB True]
              @ concat (map (\<lambda>(p, name, vals).
                  [GetParameter 0 p 999, GetParameter 1 p 999]) PARAMS),
      warnings = []\<rparr>"

section \<open>Basic facts\<close>

lemma bind_ret [simp]: "bind (ret x) f = f x"
  by (rule ext) (simp add: bind_def ret_def)

lemma bind_raise [simp]: "bind (raise e) f = raise e"
  by (rule ext) (simp add: bind_def raise_def)

lemma bind_eq_Inr:
  "bind m f w = (Inr y, w') \<longleftrightarrow> (\<exists>x w1. m w = (Inr x, w1) \<and> f x w1 = (Inr y, w'))"
  by (auto simp: bind_def split: prod.splits sum.splits)

lemma c_int_fits [simp]: "fits_c_int i \<Longrightarrow> c_int i = ret i"
  by (simp add: c_int_def fits_c_int_def)

lemma c_int_eq_Inr: "c_int i w = (Inr x, w') \<longleftrightarrow> fits_c_int i \<and> x = i \<and> w' = w"
  by (auto simp: c_int_def fits_c_int_def ret_def raise_def)

lemma py_in_iff: "py_in v xs \<longleftrightarrow> int_of v \<in> int_of ` set xs"
  by (induction xs) (auto simp: py_eq_def)

lemma py_in_range: "py_in v (py_range n) \<longleftrightarrow> 0 \<le> int_of v \<and> int_of v < n"
  by (auto simp: py_in_iff py_range_def image_image)

lemma PARAMS_domain_fits:
  "(p, name, vals) \<in> set PARAMS \<Longrightarrow> py_in v vals \<Longrightarrow> fits_c_int (int_of v)"
  by (auto simp: PARAMS_def py_in_range fits_c_int_def py_eq_def)

lemma py_range_not_bools [simp]: "py_range n \<noteq> PyBool b # xs"
  by (auto simp: py_range_def map_eq_Cons_conv)

lemma sim_driver_sel [simp]:
  "count_connected (sim_driver n v0) tr = n"
  "open_result (sim_driver n v0) tr i a b c f = (0 \<le> i \<and> i < n)"
  "parameter_value (sim_driver n v0) tr i p = (case last_set i p tr of Some v \<Rightarrow> v | None \<Rightarrow> v0)"
  "frame_data (sim_driver n v0) tr i = []"
  by (simp_all add: sim_driver_def)

lemma deaf_driver_sel [simp]:
  "count_connected (deaf_driver n v0) tr = n"
  "open_result (deaf_driver n v0) tr i a b c f = (0 \<le> i \<and> i < n)"
  "parameter_value (deaf_driver n v0) tr i p = v0"
  "frame_data (deaf_driver n v0) tr i = []"
  by (simp_all add: deaf_driver_def sim_driver_def)

lemma list_setitem_slot:
  "- int (length xs) \<le> pos \<Longrightarrow> pos < int (length xs) \<Longrightarrow>
   list_setitem xs pos v = ret (xs[nat (if pos < 0 then pos + int (length xs) else pos) := v])"
  by (auto simp: list_setitem_def Let_def)

subsection \<open>Buffers, traces and the loops of the constructor\<close>

lemma fold_update_map_of:
  "map_of (fold (\<lambda>i. AList.update i b) js al) k = (if k \<in> set js then Some b else map_of al k)"
  by (induction js arbitrary: al) (auto simp: update_conv')

lemma fold_update_keys:
  "set (map fst (fold (\<lambda>i. AList.update i b) js al)) = set (map fst al) \<union> set js"
  by (induction js arbitrary: al) (auto simp: dom_update)

lemma fold_update_distinct:
  "distinct (map fst al) \<Longrightarrow> distinct (map fst (fold (\<lambda>i. AList.update i b) js al))"
  by (induction js arbitrary: al) (auto simp: distinct_update)

lemma fold_update_fresh:
  "distinct js \<Longrightarrow> set js \<inter> set (map fst al) = {} \<Longrightarrow>
   map fst (fold (\<lambda>i. AList.update i b) js al) = map fst al @ js"
proof (induction js arbitrary: al)
  case Nil
  then show ?case by simp
next
  case (Cons a js)
  have keys: "map fst (AList.update a b al) = map fst al @ [a]"
    using Cons.prems by (simp add: update_keys)
  have "set js \<inter> set (map fst (AList.update a b al)) = {}"
    using Cons.prems unfolding keys by auto
  with Cons.prems have
    "map fst (fold (\<lambda>i. AList.update i b) js (AList.update a b al)) =
       map fst (AList.update a b al) @ js"
    by (intro Cons.IH) simp_all
  then show ?case by (simp add: keys)
qed

lemma update_values:
  "(k, v) \<in> set (AList.update i b al) \<Longrightarrow> v = b \<or> (k, v) \<in> set al"
  by (induction al) (auto split: if_splits)

lemma fold_update_values:
  "(k, v) \<in> set (fold (\<lambda>i. AList.update i b) js al) \<Longrightarrow> v = b \<or> (k, v) \<in> set al"
  by (induction js arbitrary: al) (auto dest: update_values)

lemma ps3eye_open_fits:
  "fits_c_int i \<Longrightarrow> fits_c_int cw \<Longrightarrow> fits_c_int ch \<Longrightarrow> fits_c_int f \<Longrightarrow>
   ps3eye_open D i cw ch f fmt w =
     (Inr (open_result D (calls w) i cw ch f fmt),
      log (Open i cw ch f fmt (open_result D (calls w) i cw ch f fmt)) w)"
  by (simp add: ps3eye_open_def Let_def)

lemma ps3eye_open_Inr:
  "ps3eye_open D i cw ch f fmt w = (Inr ok, w') \<Longrightarrow>
   fits_c_int i \<and> fits_c_int cw \<and> fits_c_int ch \<and> fits_c_int f
   \<and> w' = log (Open i cw ch f fmt ok) w"
  by (auto simp: ps3eye_open_def bind_eq_Inr c_int_eq_Inr Let_def)

lemma ps3eye_get_parameter_Inr:
  "ps3eye_get_parameter D i p w = (Inr v, w') \<Longrightarrow>
   fits_c_int i \<and> w' = log (GetParameter i p v) w"
  by (auto simp: ps3eye_get_parameter_def bind_eq_Inr c_int_eq_Inr Let_def)

lemma open_all_Inr:
  "open_all D count self js w = (Inr self', w') \<Longrightarrow>
   self' = self\<lparr>buffers :=
             fold (\<lambda>i. AList.update i (np_bytes (cam_w self * cam_h self * depth self))) js
               (buffers self)\<rparr>
   \<and> (\<forall>i \<in> set js. i < count \<and> fits_c_int i)
   \<and> w' = w\<lparr>calls := calls w @
               map (\<lambda>i. Open i (cam_w self) (cam_h self) (fps self) (format self) True) js\<rparr>"
proof (induction js arbitrary: self w)
  case Nil
  then show ?case by (simp add: ret_def)
next
  case (Cons i rest)
  let ?b = "np_bytes (cam_w self * cam_h self * depth self)"
  let ?self1 = "self\<lparr>buffers := AList.update i ?b (buffers self)\<rparr>"
  from Cons.prems have lt: "i < count"
    by (auto simp: bind_def ps3eye_uninit_def raise_def split: if_splits)
  with Cons.prems obtain ok w1 where
    op: "ps3eye_open D i (cam_w self) (cam_h self) (fps self) (format self) w = (Inr ok, w1)"
    and rest: "(if \<not> ok then raise (CameraFailedToInitialize i)
                else open_all D count ?self1 rest) w1 = (Inr self', w')"
    by (auto simp: bind_eq_Inr)
  from rest have ok: ok and r: "open_all D count ?self1 rest w1 = (Inr self', w')"
    by (auto simp: raise_def split: if_splits)
  from ps3eye_open_Inr [OF op] ok have fi: "fits_c_int i"
    and w1: "w1 = log (Open i (cam_w self) (cam_h self) (fps self) (format self) True) w"
    by auto
  from Cons.IH [OF r] lt fi w1 show ?case
    by (simp add: log_def)
qed

lemma get_all_Inr:
  "get_all D p js w = (Inr vs, w') \<Longrightarrow>
   \<exists>ns. length ns = length js \<and> vs = map PyInt ns
     \<and> w' = w\<lparr>calls := calls w @ map2 (\<lambda>i n. GetParameter i p n) js ns\<rparr>"
proof (induction js arbitrary: vs w)
  case Nil
  then show ?case by (simp add: ret_def)
next
  case (Cons i rest)
  from Cons.prems obtain v w1 vs' where
    g: "ps3eye_get_parameter D i p w = (Inr v, w1)"
    and r: "get_all D p rest w1 = (Inr vs', w')" and vs: "vs = PyInt v # vs'"
    by (auto simp: bind_eq_Inr ret_def)
  from Cons.IH [OF r] obtain ns where
    ns: "length ns = length rest" "vs' = map PyInt ns"
    "w' = w1\<lparr>calls := calls w1 @ map2 (\<lambda>i n. GetParameter i p n) rest ns\<rparr>"
    by blast
  from ps3eye_get_parameter_Inr [OF g] have w1: "w1 = log (GetParameter i p v) w"
    by simp
  show ?case
    by (rule exI [of _ "v # ns"]) (simp add: ns vs w1 log_def)
qed

lemma filter_is_get_gets [simp]:
  "length ns = length js \<Longrightarrow>
   filter (is_get q) (map2 (\<lambda>i n. GetParameter i p n) js ns) =
     (if q = p then map2 (\<lambda>i n. GetParameter i p n) js ns else [])"
  by (induction ns js rule: list_induct2) auto

lemma CtrlList_init_PARAMS:
  "map_of PARAMS p = Some (name, vals) \<Longrightarrow>
   CtrlList_init xs p = ret \<lparr>items = xs, param_id = p, nm = name, valid = vals\<rparr>"
  by (simp add: CtrlList_init_def getitem_def)

lemma make_ctrls_Inr:
  assumes "make_ctrls D self ps w = (Inr self', w')"
    and "distinct (map fst ps)" and "distinct (map (\<lambda>e. fst (snd e)) ps)"
    and "\<forall>(p, name, vals) \<in> set ps. map_of PARAMS p = Some (name, vals)"
  shows "self' = self\<lparr>ctrls := ctrls self'\<rparr>
    \<and> warnings w' = warnings w
    \<and> (\<exists>evs. calls w' = calls w @ evs
         \<and> (\<forall>q. q \<notin> fst ` set ps \<longrightarrow> filter (is_get q) evs = [])
         \<and> (\<forall>p name vals. (p, name, vals) \<in> set ps \<longrightarrow>
               (\<exists>ns. length ns = length (ids self)
                 \<and> map_of (ctrls self') name =
                     Some \<lparr>items = map PyInt ns, param_id = p, nm = name, valid = vals\<rparr>
                 \<and> filter (is_get p) evs =
                     map2 (\<lambda>i n. GetParameter i p n) (ids self) ns)))
    \<and> (\<forall>name. name \<notin> (\<lambda>e. fst (snd e)) ` set ps \<longrightarrow>
           map_of (ctrls self') name = map_of (ctrls self) name)"
  using assms
proof (induction ps arbitrary: self w)
  case Nil
  then show ?case by (simp add: ret_def)
next
  case (Cons entry rest)
  obtain p name vals where entry: "entry = (p, name, vals)"
    by (cases entry) auto
  from Cons.prems(4) entry have reg: "map_of PARAMS p = Some (name, vals)"
    by simp
  let ?c = "\<lambda>vs. \<lparr>items = vs, param_id = p, nm = name, valid = vals\<rparr>"
  from Cons.prems(1) obtain vs w1 where
    g: "get_all D p (ids self) w = (Inr vs, w1)"
    and r: "make_ctrls D (self\<lparr>ctrls := AList.update name (?c vs) (ctrls self)\<rparr>) rest w1
              = (Inr self', w')"
    unfolding entry by (auto simp: bind_eq_Inr CtrlList_init_PARAMS [OF reg])
  from get_all_Inr [OF g] obtain ns where
    ns: "length ns = length (ids self)" "vs = map PyInt ns"
    "w1 = w\<lparr>calls := calls w @ map2 (\<lambda>i n. GetParameter i p n) (ids self) ns\<rparr>"
    by blast
  let ?self1 = "self\<lparr>ctrls := AList.update name (?c vs) (ctrls self)\<rparr>"
  have d1: "distinct (map fst rest)" and d2: "distinct (map (\<lambda>e. fst (snd e)) rest)"
    and d3: "\<forall>(p, name, vals) \<in> set rest. map_of PARAMS p = Some (name, vals)"
    and pf: "p \<notin> fst ` set rest" and nf: "name \<notin> (\<lambda>e. fst (snd e)) ` set rest"
    using Cons.prems(2,3,4) unfolding entry by auto
  from Cons.IH [OF r d1 d2 d3] obtain evs where
    s: "self' = ?self1\<lparr>ctrls := ctrls self'\<rparr>"
    and wn: "warnings w' = warnings w1"
    and c: "calls w' = calls w1 @ evs"
    and none': "\<forall>q. q \<notin> fst ` set rest \<longrightarrow> filter (is_get q) evs = []"
    and each': "\<forall>q nm' vs'. (q, nm', vs') \<in> set rest \<longrightarrow>
        (\<exists>ms. length ms = length (ids ?self1)
          \<and> map_of (ctrls self') nm' =
               Some \<lparr>items = map PyInt ms, param_id = q, nm = nm', valid = vs'\<rparr>
          \<and> filter (is_get q) evs = map2 (\<lambda>i n. GetParameter i q n) (ids ?self1) ms)"
    and keep': "\<forall>n. n \<notin> (\<lambda>e. fst (snd e)) ` set rest \<longrightarrow>
        map_of (ctrls self') n = map_of (ctrls ?self1) n"
    by blast
  have none: "filter (is_get q) evs = []" if "q \<notin> fst ` set rest" for q
    using none' that by blast
  have each: "\<exists>ms. length ms = length (ids self)
          \<and> map_of (ctrls self') nm' =
               Some \<lparr>items = map PyInt ms, param_id = q, nm = nm', valid = vs'\<rparr>
          \<and> filter (is_get q) evs = map2 (\<lambda>i n. GetParameter i q n) (ids self) ms"
    if "(q, nm', vs') \<in> set rest" for q nm' vs'
    using each' that by simp
  have keep: "map_of (ctrls self') n = map_of (ctrls ?self1) n"
    if "n \<notin> (\<lambda>e. fst (snd e)) ` set rest" for n
    using keep' that by blast
  let ?gets = "map2 (\<lambda>i n. GetParameter i p n) (ids self) ns"
  have 1: "self' = self\<lparr>ctrls := ctrls self'\<rparr>"
    by (subst s) simp
  have 2: "warnings w' = warnings w"
    using wn ns(3) by simp
  have 3: "calls w' = calls w @ (?gets @ evs)"
    using c ns(3) by simp
  have 4: "\<forall>q. q \<notin> fst ` set (entry # rest) \<longrightarrow> filter (is_get q) (?gets @ evs) = []"
    using none ns(1) unfolding entry by auto
  have 5: "\<exists>ms. length ms = length (ids self)
          \<and> map_of (ctrls self') nm' =
               Some \<lparr>items = map PyInt ms, param_id = q, nm = nm', valid = vs'\<rparr>
          \<and> filter (is_get q) (?gets @ evs) = map2 (\<lambda>i n. GetParameter i q n) (ids self) ms"
    if mem: "(q, nm', vs') \<in> set (entry # rest)" for q nm' vs'
  proof (cases "(q, nm', vs') = entry")
    case True
    then have eq: "q = p" "nm' = name" "vs' = vals"
      using entry by auto
    have "map_of (ctrls self') name = Some (?c vs)"
      using keep [OF nf] by (simp add: update_conv')
    moreover have "filter (is_get p) (?gets @ evs) = ?gets"
      using none [OF pf] ns(1) by simp
    ultimately show ?thesis
      unfolding eq using ns(1,2) by blast
  next
    case False
    with mem have inrest: "(q, nm', vs') \<in> set rest"
      by auto
    then have "q \<noteq> p"
      using pf by force
    then have "filter (is_get q) (?gets @ evs) = filter (is_get q) evs"
      using ns(1) by simp
    with each [OF inrest] show ?thesis
      by simp
  qed
  have 6: "\<forall>n. n \<notin> (\<lambda>e. fst (snd e)) ` set (entry # rest) \<longrightarrow>
             map_of (ctrls self') n = map_of (ctrls self) n"
    using keep unfolding entry by (auto simp: update_conv')
  from 1 2 3 4 5 6 show ?case
    by blast
qed

lemma PARAMS_keys: "distinct (map fst PARAMS)"
  by (simp add: PARAMS_def)

lemma PARAMS_names: "distinct (map (\<lambda>e. fst (snd e)) PARAMS)"
  by (simp add: PARAMS_def)

lemma PARAMS_lookup: "\<forall>(p, name, vals) \<in> set PARAMS. map_of PARAMS p = Some (name, vals)"
  using PARAMS_keys by (auto intro: map_of_is_SomeI)

lemma RESOLUTION_cases:
  "map_of RESOLUTION res = Some (width, height) \<Longrightarrow>
   res = RES_SMALL \<and> width = 320 \<and> height = 240 \<or> res = RES_LARGE \<and> width = 640 \<and> height = 480"
  by (auto simp: RESOLUTION_def RES_SMALL_def RES_LARGE_def split: if_splits)

lemma RESOLUTION_fits:
  "map_of RESOLUTION res = Some (width, height) \<Longrightarrow> fits_c_int width \<and> fits_c_int height"
  by (auto dest!: RESOLUTION_cases simp: fits_c_int_def)

lemma length_np_bytes: "0 \<le> n \<Longrightarrow> int (length (np_bytes n)) = n"
  by (simp add: np_bytes_def)

lemma length_overwrite [simp]: "length (overwrite frame buf) = length buf"
  by (simp add: overwrite_def)

lemma Camera_init_Inr:
  assumes "Camera_init D a res rate color w = (Inr cam, w')"
  shows "map_of RESOLUTION res = Some (cam_w cam, cam_h cam)
    \<and> ids cam = normalize_ids a \<and> resolution cam = (cam_w cam, cam_h cam)
    \<and> fps cam = rate \<and> format cam = PS3EYE_FORMAT_RGB \<and> depth cam = 3 \<and> \<not> ended cam
    \<and> buffers cam =
        fold (\<lambda>i. AList.update i (np_bytes (cam_w cam * cam_h cam * 3))) (ids cam) []
    \<and> (\<forall>i \<in> set (ids cam). i < count_connected D (calls w @ [Init]) \<and> fits_c_int i)
    \<and> warnings w' = warnings w
    \<and> (\<exists>evs. calls w' =
          calls w @ [Init, CountConnected (count_connected D (calls w @ [Init]))]
            @ map (\<lambda>i. Open i (cam_w cam) (cam_h cam) rate PS3EYE_FORMAT_RGB True) (ids cam)
            @ evs
         \<and> (\<forall>q. q \<notin> fst ` set PARAMS \<longrightarrow> filter (is_get q) evs = [])
         \<and> (\<forall>p name vals. (p, name, vals) \<in> set PARAMS \<longrightarrow>
               (\<exists>ns. length ns = length (ids cam)
                 \<and> map_of (ctrls cam) name =
                     Some \<lparr>items = map PyInt ns, param_id = p, nm = name, valid = vals\<rparr>
                 \<and> filter (is_get p) evs =
                     map2 (\<lambda>i n. GetParameter i p n) (ids cam) ns)))"
proof -
  let ?count = "count_connected D (calls w @ [Init])"
  let ?w1 = "log (CountConnected ?count) (log Init w)"
  from assms obtain width height where
    res: "map_of RESOLUTION res = Some (width, height)"
    by (cases "map_of RESOLUTION res")
      (auto simp: Camera_init_def getitem_def bind_def raise_def)
  define self0 where "self0 =
    \<lparr>ids = normalize_ids a, resolution = (width, height), cam_w = width, cam_h = height,
       fps = rate, format = PS3EYE_FORMAT_RGB, depth = 3, buffers = [], ctrls = [],
       ended = False\<rparr>"
  from assms res obtain self1 w2 self2 where
    o: "open_all D ?count self0 (normalize_ids a) ?w1 = (Inr self1, w2)"
    and m: "make_ctrls D self1 PARAMS w2 = (Inr self2, w')"
    and cam: "cam = self2\<lparr>ended := False\<rparr>"
    by (auto simp: Camera_init_def getitem_def bind_eq_Inr ps3eye_init_def
        ps3eye_count_connected_def Let_def log_def self0_def ret_def)
  from open_all_Inr [OF o] have
    s1: "self1 = self0\<lparr>buffers :=
           fold (\<lambda>i. AList.update i (np_bytes (width * height * 3))) (normalize_ids a) []\<rparr>"
    and rng: "\<forall>i \<in> set (normalize_ids a). i < ?count \<and> fits_c_int i"
    and w2: "w2 = ?w1\<lparr>calls := calls ?w1 @
               map (\<lambda>i. Open i width height rate PS3EYE_FORMAT_RGB True) (normalize_ids a)\<rparr>"
    by (simp_all add: self0_def)
  from make_ctrls_Inr [OF m PARAMS_keys PARAMS_names PARAMS_lookup] obtain evs where
    s2: "self2 = self1\<lparr>ctrls := ctrls self2\<rparr>"
    and wn: "warnings w' = warnings w2"
    and c: "calls w' = calls w2 @ evs"
    and none: "\<forall>q. q \<notin> fst ` set PARAMS \<longrightarrow> filter (is_get q) evs = []"
    and each: "\<forall>p name vals. (p, name, vals) \<in> set PARAMS \<longrightarrow>
               (\<exists>ns. length ns = length (ids self1)
                 \<and> map_of (ctrls self2) name =
                     Some \<lparr>items = map PyInt ns, param_id = p, nm = name, valid = vals\<rparr>
                 \<and> filter (is_get p) evs =
                     map2 (\<lambda>i n. GetParameter i p n) (ids self1) ns)"
    by blast
  have s2f: "ids self2 = ids self1" "cam_w self2 = cam_w self1" "cam_h self2 = cam_h self1"
    "resolution self2 = resolution self1" "fps self2 = fps self1"
    "format self2 = format self1" "depth self2 = depth self1"
    "buffers self2 = buffers self1"
    using arg_cong [OF s2, of ids] arg_cong [OF s2, of cam_w] arg_cong [OF s2, of cam_h]
      arg_cong [OF s2, of resolution] arg_cong [OF s2, of fps] arg_cong [OF s2, of format]
      arg_cong [OF s2, of depth] arg_cong [OF s2, of buffers]
    by simp_all
  have fields: "ids cam = normalize_ids a" "cam_w cam = width" "cam_h cam = height"
    "resolution cam = (width, height)" "fps cam = rate" "format cam = PS3EYE_FORMAT_RGB"
    "depth cam = 3" "\<not> ended cam" "ctrls cam = ctrls self2" "ids self1 = normalize_ids a"
    "buffers cam =
       fold (\<lambda>i. AList.update i (np_bytes (width * height * 3))) (normalize_ids a) []"
    unfolding cam by (simp_all add: s2f s1 self0_def)
  have calls: "calls w' =
          calls w @ [Init, CountConnected ?count]
            @ map (\<lambda>i. Open i width height rate PS3EYE_FORMAT_RGB True) (normalize_ids a)
            @ evs"
    using c w2 by (simp add: log_def)
  have warns: "warnings w' = warnings w"
    using wn w2 by (simp add: log_def)
  show ?thesis
    unfolding fields using res rng warns calls none each
    by (simp add: fields)
qed

lemmas run_simps =
  Camera_init_def ps3eye_init_def ps3eye_uninit_def ps3eye_count_connected_def
  ps3eye_open_def ps3eye_close_def ps3eye_get_parameter_def ps3eye_set_parameter_def
  ps3eye_grab_frame_def log_def warn_def getitem_def RESOLUTION_def RES_SMALL_def
  RES_LARGE_def bind_def ret_def raise_def PARAMS_def CtrlList_init_def c_int_def Let_def
  world0_def

lemma demo_init:
  "Camera_init (deaf_driver 2 999) (Many [0, 1]) RES_SMALL 60 True world0 =
     (Inr demo_cam, demo_world)"
  by (simp add: run_simps demo_cam_def demo_world_def)

lemma stuck_driver_sel [simp]:
  "count_connected (stuck_driver n v0) tr = n"
  "open_result (stuck_driver n v0) tr i a b c f = False"
  "parameter_value (stuck_driver n v0) tr i p = v0"
  by (simp_all add: stuck_driver_def deaf_driver_def sim_driver_def)

lemma open_all_missing:
  assumes "\<forall>i \<in> set pre. i < count \<and> fits_c_int i"
    and "fits_c_int (cam_w self)" "fits_c_int (cam_h self)"
    and "pre = [] \<or> fits_c_int (fps self)"
    and "\<forall>k < length pre.
           open_result D
             (calls w @ map (\<lambda>i. Open i (cam_w self) (cam_h self) (fps self) (format self) True)
                          (take k pre))
             (pre ! k) (cam_w self) (cam_h self) (fps self) (format self)"
    and "count \<le> bad"
  shows "open_all D count self (pre @ bad # rest) w =
           (Inl (NoCameraAvailable bad count),
            w\<lparr>calls := calls w
                 @ map (\<lambda>i. Open i (cam_w self) (cam_h self) (fps self) (format self) True) pre
                 @ [Uninit]\<rparr>)"
  using assms
proof (induction pre arbitrary: self w)
  case Nil
  then show ?case
    by (simp add: bind_def ps3eye_uninit_def raise_def log_def)
next
  case (Cons i pre)
  let ?ev = "Open i (cam_w self) (cam_h self) (fps self) (format self) True"
  let ?self1 = "self\<lparr>buffers :=
      AList.update i (np_bytes (cam_w self * cam_h self * depth self)) (buffers self)\<rparr>"
  from Cons.prems(1) have lt: "i < count" and fi: "fits_c_int i"
    by simp_all
  from Cons.prems(4) have fr: "fits_c_int (fps self)"
    by simp
  from Cons.prems(5) have ok: "open_result D (calls w) i (cam_w self) (cam_h self) (fps self)
      (format self)"
    by (auto dest: spec [of _ 0])
  have op: "ps3eye_open D i (cam_w self) (cam_h self) (fps self) (format self) w =
      (Inr True, log ?ev w)"
    using ps3eye_open_fits [OF fi Cons.prems(2,3) fr, of D "format self" w] ok by simp
  have later: "\<forall>k < length pre.
           open_result D
             (calls (log ?ev w)
                @ map (\<lambda>i. Open i (cam_w ?self1) (cam_h ?self1) (fps ?self1) (format ?self1) True)
                    (take k pre))
             (pre ! k) (cam_w ?self1) (cam_h ?self1) (fps ?self1) (format ?self1)"
  proof (intro allI impI)
    fix k assume "k < length pre"
    then have "Suc k < length (i # pre)"
      by simp
    from Cons.prems(5) [rule_format, OF this] show "open_result D
             (calls (log ?ev w)
                @ map (\<lambda>i. Open i (cam_w ?self1) (cam_h ?self1) (fps ?self1) (format ?self1) True)
                    (take k pre))
             (pre ! k) (cam_w ?self1) (cam_h ?self1) (fps ?self1) (format ?self1)"
      by (simp add: log_def)
  qed
  have "open_all D count ?self1 (pre @ bad # rest) (log ?ev w) =
           (Inl (NoCameraAvailable bad count),
            (log ?ev w)\<lparr>calls := calls (log ?ev w)
                 @ map (\<lambda>i. Open i (cam_w ?self1) (cam_h ?self1) (fps ?self1) (format ?self1) True) pre
                 @ [Uninit]\<rparr>)"
    using Cons.prems fr by (intro Cons.IH later) simp_all
  then show ?case
    using lt op by (simp add: bind_def log_def)
qed

subsection \<open>The session invariant\<close>

lemma Camera_init_inv:
  assumes "Camera_init D a res rate color w = (Inr cam, w')"
  shows "session_inv cam"
proof -
  let ?b = "np_bytes (cam_w cam * cam_h cam * 3)"
  from Camera_init_Inr [OF assms] have
    res: "map_of RESOLUTION res = Some (cam_w cam, cam_h cam)" and d: "depth cam = 3"
    and b: "buffers cam = fold (\<lambda>i. AList.update i ?b) (ids cam) []"
    and f: "\<forall>i \<in> set (ids cam). fits_c_int i"
    by simp_all
  have dims: "(cam_w cam, cam_h cam) \<in> snd ` set RESOLUTION"
    using map_of_SomeD [OF res] by force
  have nonneg: "0 \<le> cam_w cam * cam_h cam * 3"
    using RESOLUTION_cases [OF res] by auto
  have "map_of (buffers cam) i = Some ?b" if "i \<in> set (ids cam)" for i
    unfolding b using that by (simp add: fold_update_map_of)
  moreover have "int (length ?b) = cam_h cam * cam_w cam * depth cam"
    using length_np_bytes [OF nonneg] d by (simp add: mult.commute)
  ultimately show ?thesis
    unfolding session_inv_def using dims d f by simp
qed

lemma session_inv_dims:
  "session_inv cam \<Longrightarrow>
   depth cam = 3 \<and> (cam_w cam = 320 \<and> cam_h cam = 240 \<or> cam_w cam = 640 \<and> cam_h cam = 480)"
  by (auto simp: session_inv_def RESOLUTION_def)

lemma session_inv_ctrls [simp]: "session_inv (cam\<lparr>ctrls := c\<rparr>) = session_inv cam"
  by (simp add: session_inv_def)

lemma session_inv_ended [simp]: "session_inv (cam\<lparr>ended := e\<rparr>) = session_inv cam"
  by (simp add: session_inv_def)

lemma read_loop_views:
  assumes "session_inv self" and "set js \<subseteq> set (ids self)"
  shows "\<exists>self'. read_loop D self js imgs w =
           (Inr (self', imgs @ map (\<lambda>i. \<lparr>base = i,
                    shape = [cam_h self, cam_w self, depth self]\<rparr>) js),
            w\<lparr>calls := calls w @ map GrabFrame js\<rparr>)
         \<and> session_inv self' \<and> self' = self\<lparr>buffers := buffers self'\<rparr>"
  using assms
proof (induction js arbitrary: self imgs w)
  case Nil
  then show ?case by (simp add: ret_def)
next
  case (Cons i rest)
  from Cons.prems obtain buf where
    fi: "fits_c_int i" and buf: "map_of (buffers self) i = Some buf"
    and len: "int (length buf) = cam_h self * cam_w self * depth self"
    by (auto simp: session_inv_def)
  let ?buf' = "overwrite (frame_data D (calls w) i) buf"
  let ?self1 = "self\<lparr>buffers := AList.update i ?buf' (buffers self)\<rparr>"
  let ?img = "\<lparr>base = i, shape = [cam_h self, cam_w self, depth self]\<rparr>"
  have dims: "0 \<le> cam_h self" "0 \<le> cam_w self" "0 \<le> depth self"
    using session_inv_dims [OF Cons.prems(1)] by auto
  have g: "ps3eye_grab_frame D i buf w = (Inr ?buf', log (GrabFrame i) w)"
    using fi by (simp add: ps3eye_grab_frame_def)
  have r: "reshape i ?buf' [cam_h ?self1, cam_w ?self1, depth ?self1] = ret ?img"
    using dims len by (simp add: reshape_def mult.assoc)
  have inv1: "session_inv ?self1"
    using Cons.prems(1) len unfolding session_inv_def
    by (auto simp: update_conv')
  have sub: "set rest \<subseteq> set (ids ?self1)"
    using Cons.prems(2) by simp
  from Cons.IH [OF inv1 sub, of "imgs @ [?img]" "log (GrabFrame i) w"] obtain self' where
    run: "read_loop D ?self1 rest (imgs @ [?img]) (log (GrabFrame i) w) =
           (Inr (self', (imgs @ [?img]) @ map (\<lambda>i. \<lparr>base = i,
                    shape = [cam_h ?self1, cam_w ?self1, depth ?self1]\<rparr>) rest),
            (log (GrabFrame i) w)\<lparr>calls := calls (log (GrabFrame i) w) @ map GrabFrame rest\<rparr>)"
    and inv': "session_inv self'" and eq: "self' = ?self1\<lparr>buffers := buffers self'\<rparr>"
    by blast
  have eq': "self' = self\<lparr>buffers := buffers self'\<rparr>"
    by (subst eq) simp
  have "read_loop D self (i # rest) imgs w =
           (Inr (self', imgs @ map (\<lambda>i. \<lparr>base = i,
                    shape = [cam_h self, cam_w self, depth self]\<rparr>) (i # rest)),
            w\<lparr>calls := calls w @ map GrabFrame (i # rest)\<rparr>)"
    using buf g r run
    by (simp add: getitem_def bind_def Let_def log_def ret_def)
  with inv' eq' show ?case
    by blast
qed

lemma close_all_fits:
  "\<forall>i \<in> set js. fits_c_int i \<Longrightarrow>
   close_all js w = (Inr (), w\<lparr>calls := calls w @ map Close js\<rparr>)"
  by (induction js arbitrary: w) (simp_all add: ret_def ps3eye_close_def bind_def log_def)

lemma Camera_setitem_Inr:
  "Camera_setitem D cam name pos val w = (Inr cam', w') \<Longrightarrow> cam' = cam\<lparr>ctrls := ctrls cam'\<rparr>"
  by (auto simp: Camera_setitem_def bind_eq_Inr ret_def raise_def split: option.splits)

lemma Camera_end_Inr:
  "Camera_end cam w = (Inr cam', w') \<Longrightarrow> cam' = cam\<lparr>ended := True\<rparr>"
  by (auto simp: Camera_end_def bind_eq_Inr ret_def split: if_splits)

lemma session_invariant: "session D cam \<Longrightarrow> session_inv cam"
proof (induction rule: session.induct)
  case (opened a res rate color w cam w')
  then show ?case by (rule Camera_init_inv)
next
  case (after_read cam w cam' imgs w')
  from read_loop_views [OF after_read.IH subset_refl, of D "[]" w] after_read.hyps(2)
  show ?case by (auto simp: Camera_read_def)
next
  case (after_write cam name pos val w cam' w')
  from Camera_setitem_Inr [OF after_write.hyps(2)] after_write.IH show ?case
    by (metis session_inv_ctrls)
next
  case (after_end cam w cam' w')
  from Camera_end_Inr [OF after_end.hyps(2)] after_end.IH show ?case
    by simp
qed

section \<open>The parameter registry\<close>

text \<open>
  C9, as the claim states it: the registry has exactly 12 entries. It has 13.
\<close>

theorem PARAMS_not_twelve: "length PARAMS \<noteq> 12"
  by (simp add: PARAMS_def)

text \<open>
  C9, amended: the registry has exactly 13 entries, in the order of the source (auto-gain,
  auto-whitebalance, gain, exposure, sharpness, contrast, brightness, hue, red, blue and
  green balance, horizontal and vertical flip); the auto-exposure control is not among
  them, and looking it up raises \<^verbatim>\<open>KeyError\<close>.
\<close>

theorem PARAMS_entries:
  "map fst PARAMS =
     [PS3EYE_AUTO_GAIN, PS3EYE_AUTO_WHITEBALANCE, PS3EYE_GAIN, PS3EYE_EXPOSURE,
      PS3EYE_SHARPNESS, PS3EYE_CONTRAST, PS3EYE_BRIGHTNESS, PS3EYE_HUE,
      PS3EYE_REDBALANCE, PS3EYE_BLUEBALANCE, PS3EYE_GREENBALANCE,
      PS3EYE_HFLIP, PS3EYE_VFLIP]
   \<and> map (fst \<circ> snd) PARAMS =
     [''auto_gain'', ''auto_whitebalance'', ''gain'', ''exposure'', ''sharpness'',
      ''contrast'', ''brightness'', ''hue'', ''red_balance'', ''blue_balance'',
      ''green_balance'', ''hflip'', ''vflip'']
   \<and> length PARAMS = 13
   \<and> distinct (map fst PARAMS)
   \<and> PS3EYE_AUTO_EXPOSURE \<notin> set (map fst PARAMS)
   \<and> getitem PARAMS PS3EYE_AUTO_EXPOSURE w = (Inl KeyError, w)"
  by (simp add: PARAMS_def getitem_def raise_def)

section \<open>Writing a control\<close>

text \<open>
  C4: a write of a value outside the control's domain returns normally with the channel
  as it was, adds one warning carrying the control's name, its domain and the rejected
  value, and issues no low-level call at all (the trace of calls is unchanged), whatever
  the slot position.
\<close>

theorem setitem_outside_domain:
  assumes "\<not> py_in val (valid self)"
  shows "CtrlList_setitem D self pos val w =
           (Inr self,
            w\<lparr>warnings := warnings w @ [AdjustmentAborted (nm self) (valid self) val]\<rparr>)
         \<and> calls (snd (CtrlList_setitem D self pos val w)) = calls w"
  using assms by (simp add: CtrlList_setitem_def bind_def warn_def ret_def)

theorem setitem_outside_domain_witness:
  "\<not> py_in (PyInt 64) (valid gain_ctrl)
   \<and> CtrlList_setitem (sim_driver 2 0) gain_ctrl 1 (PyInt 64) world0 =
       (Inr gain_ctrl,
        \<lparr>calls = [], warnings = [AdjustmentAborted ''gain'' (py_range 64) (PyInt 64)]\<rparr>)"
  using setitem_outside_domain [of "PyInt 64" gain_ctrl "sim_driver 2 0" 1 world0]
  by (simp add: gain_ctrl_def py_in_range world0_def)

text \<open>
  C3: for a control of the registry, a slot position of its list (counted from either
  end), and a value inside the domain, the write issues the set and the get call and
  returns normally. When the value read back equals the requested one, exactly that value
  is stored in the slot; when it differs, the channel is returned unchanged and one
  warning carrying the control's name, its domain and the requested value is added.
  The list is taken to have at most \<open>2 ^ 31\<close> slots, so that the position is a C
  \<^verbatim>\<open>int\<close>.
\<close>

theorem setitem_inside_domain:
  assumes reg: "(param_id self, nm self, valid self) \<in> set PARAMS"
    and dom: "py_in val (valid self)"
    and lo: "- int (length (items self)) \<le> pos"
    and hi: "pos < int (length (items self))"
    and len: "int (length (items self)) \<le> 2 ^ 31"
  shows "CtrlList_setitem D self pos val w =
     (let w1 = log (SetParameter pos (param_id self) (int_of val)) w;
          conf = parameter_value D (calls w1) pos (param_id self);
          w2 = log (GetParameter pos (param_id self) conf) w1
      in if conf = int_of val
         then (Inr (self\<lparr>items :=
                  (items self)[nat (if pos < 0 then pos + int (length (items self)) else pos)
                     := val]\<rparr>), w2)
         else (Inr self,
               w2\<lparr>warnings := warnings w2 @ [AdjustmentFailed (nm self) (valid self) val]\<rparr>))"
proof -
  have fp: "fits_c_int pos"
    using lo hi len by (simp add: fits_c_int_def)
  have fv: "fits_c_int (int_of val)"
    using reg dom by (rule PARAMS_domain_fits)
  show ?thesis
    using dom fp fv list_setitem_slot [OF lo hi]
    by (simp add: CtrlList_setitem_def ps3eye_set_parameter_def ps3eye_get_parameter_def
        bind_def ret_def warn_def py_eq_def Let_def)
qed

theorem setitem_inside_domain_witness:
  "(param_id gain_ctrl, nm gain_ctrl, valid gain_ctrl) \<in> set PARAMS
   \<and> py_in (PyInt 42) (valid gain_ctrl)
   \<and> CtrlList_setitem (sim_driver 2 0) gain_ctrl 1 (PyInt 42) world0 =
       (Inr (gain_ctrl\<lparr>items := [PyInt 7, PyInt 42]\<rparr>),
        \<lparr>calls = [SetParameter 1 PS3EYE_GAIN 42, GetParameter 1 PS3EYE_GAIN 42],
           warnings = []\<rparr>)
   \<and> CtrlList_setitem (deaf_driver 2 0) gain_ctrl (- 1) (PyInt 42) world0 =
       (Inr gain_ctrl,
        \<lparr>calls = [SetParameter (- 1) PS3EYE_GAIN 42, GetParameter (- 1) PS3EYE_GAIN 0],
           warnings = [AdjustmentFailed ''gain'' (py_range 64) (PyInt 42)]\<rparr>)"
proof -
  have reg: "(param_id gain_ctrl, nm gain_ctrl, valid gain_ctrl) \<in> set PARAMS"
    by (simp add: gain_ctrl_def PARAMS_def)
  have dom: "py_in (PyInt 42) (valid gain_ctrl)"
    by (simp add: gain_ctrl_def py_in_range)
  have a: "CtrlList_setitem (sim_driver 2 0) gain_ctrl 1 (PyInt 42) world0 =
       (Inr (gain_ctrl\<lparr>items := [PyInt 7, PyInt 42]\<rparr>),
        \<lparr>calls = [SetParameter 1 PS3EYE_GAIN 42, GetParameter 1 PS3EYE_GAIN 42],
           warnings = []\<rparr>)"
    using setitem_inside_domain [OF reg dom, of 1 "sim_driver 2 0" world0]
    by (simp add: gain_ctrl_def world0_def log_def)
  have b: "CtrlList_setitem (deaf_driver 2 0) gain_ctrl (- 1) (PyInt 42) world0 =
       (Inr gain_ctrl,
        \<lparr>calls = [SetParameter (- 1) PS3EYE_GAIN 42, GetParameter (- 1) PS3EYE_GAIN 0],
           warnings = [AdjustmentFailed ''gain'' (py_range 64) (PyInt 42)]\<rparr>)"
    using setitem_inside_domain [OF reg dom, of "- 1" "deaf_driver 2 0" world0]
    by (simp add: gain_ctrl_def world0_def log_def)
  show ?thesis using reg dom a b by blast
qed

text \<open>
  C10: for a control whose domain is the pair \<^verbatim>\<open>[True, False]\<close>, the integers 0 and 1
  pass the membership test, and the write goes on to the set-parameter call for the
  given position. The controls of the registry with that domain are auto-gain,
  auto-whitebalance, hflip and vflip.
\<close>

theorem bool_domain_accepts_ints:
  assumes "valid self = [PyBool True, PyBool False]"
    and "val = PyInt 0 \<or> val = PyInt 1"
    and "fits_c_int pos"
  shows "py_in val (valid self)
     \<and> (\<exists>rest. calls (snd (CtrlList_setitem D self pos val w)) =
           calls w @ SetParameter pos (param_id self) (int_of val) # rest)
     \<and> [name. (p, name, vals) \<leftarrow> PARAMS, vals = [PyBool True, PyBool False]] =
         [''auto_gain'', ''auto_whitebalance'', ''hflip'', ''vflip'']"
proof -
  have "int_of val = 0 \<or> int_of val = 1"
    using assms(2) by auto
  then have m: "py_in val (valid self)" and fv: "fits_c_int (int_of val)"
    using assms(1) by (auto simp: py_eq_def fits_c_int_def)
  have "\<exists>rest. calls (snd (CtrlList_setitem D self pos val w)) =
           calls w @ SetParameter pos (param_id self) (int_of val) # rest"
    using m fv assms(3)
    by (simp add: CtrlList_setitem_def ps3eye_set_parameter_def ps3eye_get_parameter_def
        bind_def ret_def warn_def log_def Let_def list_setitem_def raise_def)
  moreover have "[name. (p, name, vals) \<leftarrow> PARAMS, vals = [PyBool True, PyBool False]] =
         [''auto_gain'', ''auto_whitebalance'', ''hflip'', ''vflip'']"
    by (simp add: PARAMS_def)
  ultimately show ?thesis using m by blast
qed

theorem bool_domain_accepts_ints_witness:
  "valid vflip_ctrl = [PyBool True, PyBool False]
   \<and> fits_c_int 0
   \<and> py_in (PyInt 1) (valid vflip_ctrl)
   \<and> CtrlList_setitem (sim_driver 1 0) vflip_ctrl 0 (PyInt 1) world0 =
       (Inr (vflip_ctrl\<lparr>items := [PyInt 1]\<rparr>),
        \<lparr>calls = [SetParameter 0 PS3EYE_VFLIP 1, GetParameter 0 PS3EYE_VFLIP 1],
           warnings = []\<rparr>)"
proof -
  have v: "valid vflip_ctrl = [PyBool True, PyBool False]"
    by (simp add: vflip_ctrl_def)
  have f: "fits_c_int 0"
    by (simp add: fits_c_int_def)
  have m: "py_in (PyInt 1) (valid vflip_ctrl)"
    using bool_domain_accepts_ints [OF v _ f, of "PyInt 1"] by simp
  have "CtrlList_setitem (sim_driver 1 0) vflip_ctrl 0 (PyInt 1) world0 =
       (Inr (vflip_ctrl\<lparr>items := [PyInt 1]\<rparr>),
        \<lparr>calls = [SetParameter 0 PS3EYE_VFLIP 1, GetParameter 0 PS3EYE_VFLIP 1],
           warnings = []\<rparr>)"
    using m f
    by (simp add: CtrlList_setitem_def ps3eye_set_parameter_def ps3eye_get_parameter_def
        bind_def ret_def log_def Let_def list_setitem_def vflip_ctrl_def world0_def
        py_eq_def c_int_def)
  then show ?thesis using v f m by blast
qed

section \<open>Opening a session\<close>

text \<open>
  C1, as the claim states it: N device indices give exactly N frame buffers. The
  buffers are a dict keyed by device index, so an index listed twice has one buffer: on a
  driver with one camera that opens index 0 each time it is asked, the list \<open>[0, 0]\<close>
  gives a session of two indices and one buffer.
\<close>

theorem duplicate_index_shares_buffer:
  "(case Camera_init (deaf_driver 1 0) (Many [0, 0]) RES_SMALL 60 True world0 of
      (Inr cam, w') \<Rightarrow> ids cam = [0, 0] \<and> buffers cam = [(0, np_bytes (320 * 240 * 3))]
    | (Inl e, w') \<Rightarrow> False)"
  by (simp add: run_simps)

text \<open>
  C1, amended: a session that opens has one frame buffer per distinct device index of
  its list, each of \<open>width * height * bytesPerPixel\<close> bytes, where \<open>(width, height)\<close>
  is the entry of the resolution table and \<open>bytesPerPixel\<close> is 3; when the N indices
  are pairwise distinct these are exactly N buffers, keyed in list order.
\<close>

theorem buffers_per_distinct_index:
  assumes "Camera_init D a res rate color w = (Inr cam, w')"
  shows "map_of RESOLUTION res = Some (cam_w cam, cam_h cam) \<and> depth cam = 3
    \<and> distinct (map fst (buffers cam))
    \<and> set (map fst (buffers cam)) = set (ids cam)
    \<and> length (buffers cam) = card (set (ids cam))
    \<and> (distinct (ids cam) \<longrightarrow>
          map fst (buffers cam) = ids cam \<and> length (buffers cam) = length (ids cam))
    \<and> list_all (\<lambda>(i, buf). int (length buf) = cam_w cam * cam_h cam * depth cam)
         (buffers cam)"
proof -
  let ?b = "np_bytes (cam_w cam * cam_h cam * 3)"
  from Camera_init_Inr [OF assms] have
    res: "map_of RESOLUTION res = Some (cam_w cam, cam_h cam)" and d: "depth cam = 3"
    and b: "buffers cam = fold (\<lambda>i. AList.update i ?b) (ids cam) []"
    by simp_all
  have dist: "distinct (map fst (buffers cam))"
    unfolding b by (rule fold_update_distinct) simp
  have keys: "set (map fst (buffers cam)) = set (ids cam)"
    unfolding b by (simp add: fold_update_keys del: set_map)
  have len: "length (buffers cam) = card (set (ids cam))"
    using distinct_card [OF dist] keys by simp
  have ord: "map fst (buffers cam) = ids cam" if "distinct (ids cam)"
    unfolding b using fold_update_fresh [OF that, of "[]" ?b] by simp
  have len': "length (buffers cam) = length (ids cam)" if "distinct (ids cam)"
    using arg_cong [OF ord [OF that], of length] by simp
  have nonneg: "0 \<le> cam_w cam * cam_h cam * 3"
    using RESOLUTION_cases [OF res] by auto
  have "int (length buf) = cam_w cam * cam_h cam * depth cam"
    if "(i, buf) \<in> set (buffers cam)" for i buf
  proof -
    from that have "buf = ?b"
      unfolding b by (auto dest: fold_update_values)
    then show ?thesis
      using length_np_bytes [OF nonneg] d by simp
  qed
  then have sizes: "list_all (\<lambda>(i, buf). int (length buf) = cam_w cam * cam_h cam * depth cam)
         (buffers cam)"
    by (auto simp: list_all_iff)
  from res d dist keys len ord len' sizes show ?thesis
    by blast
qed

theorem buffers_per_distinct_index_witness:
  "Camera_init (deaf_driver 2 999) (Many [0, 1]) RES_SMALL 60 True world0 =
     (Inr demo_cam, demo_world)
   \<and> distinct (ids demo_cam)
   \<and> map fst (buffers demo_cam) = [0, 1]
   \<and> length (buffers demo_cam) = 2
   \<and> map (\<lambda>(i, buf). int (length buf)) (buffers demo_cam) = [230400, 230400]
   \<and> cam_w demo_cam * cam_h demo_cam * depth demo_cam = 230400"
proof -
  have d: "distinct (ids demo_cam)"
    by (simp add: demo_cam_def)
  from buffers_per_distinct_index [OF demo_init] d
  have "map fst (buffers demo_cam) = ids demo_cam"
    and "length (buffers demo_cam) = length (ids demo_cam)"
    and "list_all (\<lambda>(i, buf). int (length buf) =
           cam_w demo_cam * cam_h demo_cam * depth demo_cam) (buffers demo_cam)"
    by blast+
  then show ?thesis
    using demo_init d by (simp add: demo_cam_def)
qed

text \<open>
  C8: in a session that opens, every control of the registry has a channel under its
  name whose slots are, in the order of the device list, the results of the
  get-parameter calls that the constructor issued for that control, one per device index.
  The results are stored as they come: in the example the gain channel holds 999, which
  is outside the domain of gain.
\<close>

theorem fresh_channel_holds_hardware_values:
  assumes "Camera_init D a res rate color w = (Inr cam, w')"
    and "(p, name, vals) \<in> set PARAMS"
  shows "\<exists>ns. length ns = length (ids cam)
    \<and> map_of (ctrls cam) name =
        Some \<lparr>items = map PyInt ns, param_id = p, nm = name, valid = vals\<rparr>
    \<and> filter (is_get p) (new_calls w w') = map2 (\<lambda>i n. GetParameter i p n) (ids cam) ns"
proof -
  let ?opens = "map (\<lambda>i. Open i (cam_w cam) (cam_h cam) rate PS3EYE_FORMAT_RGB True) (ids cam)"
  let ?pre = "[Init, CountConnected (count_connected D (calls w @ [Init]))] @ ?opens"
  from Camera_init_Inr [OF assms(1)] assms(2) obtain evs ns where
    c: "calls w' =
          calls w @ [Init, CountConnected (count_connected D (calls w @ [Init]))]
            @ ?opens @ evs"
    and n: "length ns = length (ids cam)"
    and m: "map_of (ctrls cam) name =
        Some \<lparr>items = map PyInt ns, param_id = p, nm = name, valid = vals\<rparr>"
    and f: "filter (is_get p) evs = map2 (\<lambda>i n. GetParameter i p n) (ids cam) ns"
    by blast
  have "filter (is_get p) ?pre = []"
    by (simp add: filter_empty_conv)
  then have "filter (is_get p) (new_calls w w') = filter (is_get p) evs"
    unfolding new_calls_def c by simp
  with n m f show ?thesis
    by auto
qed

theorem fresh_channel_holds_hardware_values_witness:
  "Camera_init (deaf_driver 2 999) (Many [0, 1]) RES_SMALL 60 True world0 =
     (Inr demo_cam, demo_world)
   \<and> (PS3EYE_GAIN, ''gain'', py_range 64) \<in> set PARAMS
   \<and> map_of (ctrls demo_cam) ''gain'' =
        Some \<lparr>items = [PyInt 999, PyInt 999], param_id = PS3EYE_GAIN, nm = ''gain'',
               valid = py_range 64\<rparr>
   \<and> filter (is_get PS3EYE_GAIN) (new_calls world0 demo_world) =
        [GetParameter 0 PS3EYE_GAIN 999, GetParameter 1 PS3EYE_GAIN 999]
   \<and> \<not> py_in (PyInt 999) (py_range 64)"
proof -
  have reg: "(PS3EYE_GAIN, ''gain'', py_range 64) \<in> set PARAMS"
    by (simp add: PARAMS_def)
  from fresh_channel_holds_hardware_values [OF demo_init reg] obtain ns where
    n: "length ns = length (ids demo_cam)"
    and m: "map_of (ctrls demo_cam) ''gain'' =
        Some \<lparr>items = map PyInt ns, param_id = PS3EYE_GAIN, nm = ''gain'',
               valid = py_range 64\<rparr>"
    and f: "filter (is_get PS3EYE_GAIN) (new_calls world0 demo_world) =
        map2 (\<lambda>i n. GetParameter i PS3EYE_GAIN n) (ids demo_cam) ns"
    by blast
  have m': "map_of (ctrls demo_cam) ''gain'' =
        Some \<lparr>items = [PyInt 999, PyInt 999], param_id = PS3EYE_GAIN, nm = ''gain'',
               valid = py_range 64\<rparr>"
    by (simp add: demo_cam_def PARAMS_def)
  from m m' have "map PyInt ns = [PyInt 999, PyInt 999]"
    by simp
  then have ns: "ns = [999, 999]"
    by (auto simp: map_eq_Cons_conv)
  show ?thesis
    using demo_init reg m' f unfolding ns
    by (simp add: demo_cam_def py_in_range)
qed

text \<open>
  C5, as the claim states it: a list containing an index at or above the connected count
  fails with the configuration error, after an uninit and with no device-open call. The
  constructor checks and opens index by index: with one camera, the list \<open>[0, 5]\<close>
  opens device 0 before it meets index 5; and when that open fails, the error is the
  device-open error and the driver context is left initialised.
\<close>

theorem open_before_missing_index:
  "Camera_init (deaf_driver 1 0) (Many [0, 5]) RES_SMALL 60 True world0 =
     (Inl (NoCameraAvailable 5 1),
      \<lparr>calls = [Init, CountConnected 1, Open 0 320 240 60 PS3EYE_FORMAT_RGB True, Uninit],
        warnings = []\<rparr>)
   \<and> Camera_init (stuck_driver 1 0) (Many [0, 5]) RES_SMALL 60 True world0 =
     (Inl (CameraFailedToInitialize 0),
      \<lparr>calls = [Init, CountConnected 1, Open 0 320 240 60 PS3EYE_FORMAT_RGB False],
        warnings = []\<rparr>)"
  by (simp add: run_simps)

text \<open>
  C5, amended: when the index \<open>bad\<close> is at or above the connected count, every index
  before it in the list is below the count and the driver opens each of them (the open
  call is made, so these indices and the frame rate are C \<^verbatim>\<open>int\<close>s, and it returns true),
  construction fails with the configuration error naming \<open>bad\<close> and the count; the
  calls issued are init, the count, one open per index before \<open>bad\<close>, and uninit last.
  No open is issued for \<open>bad\<close> or for an index after it, and none at all when \<open>bad\<close>
  is the first index.
\<close>

theorem first_missing_index:
  assumes res: "map_of RESOLUTION res = Some (width, height)"
    and ids: "normalize_ids a = pre @ bad # rest"
    and count: "count = count_connected D (calls w @ [Init])"
    and pre: "\<forall>i \<in> set pre. i < count \<and> fits_c_int i"
    and rate: "pre = [] \<or> fits_c_int rate"
    and opens: "\<forall>k < length pre.
           open_result D
             (calls w @ [Init, CountConnected count]
                @ map (\<lambda>i. Open i width height rate PS3EYE_FORMAT_RGB True) (take k pre))
             (pre ! k) width height rate PS3EYE_FORMAT_RGB"
    and bad: "count \<le> bad"
  shows "Camera_init D a res rate color w =
           (Inl (NoCameraAvailable bad count),
            w\<lparr>calls := calls w @ [Init, CountConnected count]
                 @ map (\<lambda>i. Open i width height rate PS3EYE_FORMAT_RGB True) pre
                 @ [Uninit]\<rparr>)"
proof -
  define self0 where "self0 =
    \<lparr>ids = pre @ bad # rest, resolution = (width, height), cam_w = width, cam_h = height,
       fps = rate, format = PS3EYE_FORMAT_RGB, depth = 3, buffers = [], ctrls = [],
       ended = False\<rparr>"
  let ?w1 = "log (CountConnected count) (log Init w)"
  have f: "fits_c_int (cam_w self0)" "fits_c_int (cam_h self0)"
    "pre = [] \<or> fits_c_int (fps self0)"
    using RESOLUTION_fits [OF res] rate by (simp_all add: self0_def)
  have o: "\<forall>k < length pre.
           open_result D
             (calls ?w1 @ map (\<lambda>i. Open i (cam_w self0) (cam_h self0) (fps self0) (format self0) True)
                          (take k pre))
             (pre ! k) (cam_w self0) (cam_h self0) (fps self0) (format self0)"
    using opens by (simp add: self0_def log_def)
  from open_all_missing [OF pre f o bad, of rest]
  have "open_all D count self0 (pre @ bad # rest) ?w1 =
           (Inl (NoCameraAvailable bad count),
            w\<lparr>calls := calls w @ [Init, CountConnected count]
                 @ map (\<lambda>i. Open i width height rate PS3EYE_FORMAT_RGB True) pre
                 @ [Uninit]\<rparr>)"
    by (simp add: self0_def log_def)
  then show ?thesis
    using res count ids
    by (simp add: Camera_init_def getitem_def ps3eye_init_def ps3eye_count_connected_def
        bind_def Let_def log_def self0_def ret_def)
qed

theorem first_missing_index_witness:
  "map_of RESOLUTION RES_LARGE = Some (640, 480)
   \<and> fits_c_int 30
   \<and> (2::int) \<le> 2
   \<and> Camera_init (deaf_driver 2 0) (Many [1, 0, 2, 7]) RES_LARGE 30 True world0 =
       (Inl (NoCameraAvailable 2 2),
        \<lparr>calls = [Init, CountConnected 2, Open 1 640 480 30 PS3EYE_FORMAT_RGB True,
                  Open 0 640 480 30 PS3EYE_FORMAT_RGB True, Uninit],
           warnings = []\<rparr>)
   \<and> Camera_init (deaf_driver 2 0) (Single 2) RES_LARGE 30 True world0 =
       (Inl (NoCameraAvailable 2 2),
        \<lparr>calls = [Init, CountConnected 2, Uninit], warnings = []\<rparr>)"
proof -
  have res: "map_of RESOLUTION RES_LARGE = Some (640, 480)"
    by (simp add: RESOLUTION_def RES_SMALL_def RES_LARGE_def)
  have count: "2 = count_connected (deaf_driver 2 0) (calls world0 @ [Init])"
    by simp
  have fits: "fits_c_int 30"
    by (simp add: fits_c_int_def)
  then have rate: "[1, 0 :: int] = [] \<or> fits_c_int 30"
    by simp
  have pre: "\<forall>i \<in> set [1, 0]. i < 2 \<and> fits_c_int i"
    by (simp add: fits_c_int_def)
  have opens: "\<forall>k < length [1, 0 :: int].
           open_result (deaf_driver 2 0)
             (calls world0 @ [Init, CountConnected 2]
                @ map (\<lambda>i. Open i 640 480 30 PS3EYE_FORMAT_RGB True) (take k [1, 0]))
             ([1, 0] ! k) 640 480 30 PS3EYE_FORMAT_RGB"
    by (simp add: less_Suc_eq)
  have a: "Camera_init (deaf_driver 2 0) (Many [1, 0, 2, 7]) RES_LARGE 30 True world0 =
       (Inl (NoCameraAvailable 2 2),
        \<lparr>calls = [Init, CountConnected 2, Open 1 640 480 30 PS3EYE_FORMAT_RGB True,
                  Open 0 640 480 30 PS3EYE_FORMAT_RGB True, Uninit],
           warnings = []\<rparr>)"
    using first_missing_index [OF res _ count pre rate opens, of "Many [1, 0, 2, 7]" 2 "[7]" True]
    by (simp add: world0_def)
  have b: "Camera_init (deaf_driver 2 0) (Single 2) RES_LARGE 30 True world0 =
       (Inl (NoCameraAvailable 2 2),
        \<lparr>calls = [Init, CountConnected 2, Uninit], warnings = []\<rparr>)"
    using first_missing_index [OF res _ count, of "Single 2" "[]" 2 "[]" 30 True]
    by (simp add: world0_def)
  show ?thesis
    using res fits a b by simp
qed

section \<open>Reading frames\<close>

text \<open>
  C6: on every session, \<^verbatim>\<open>read\<close> returns normally with one view per entry of the
  device list, in list order; the view of index \<open>i\<close> is over the buffer keyed \<open>i\<close>,
  which has \<open>height * width * depth\<close> bytes, and has the shape
  \<open>[height, width, depth]\<close>, that is \<open>[240, 320, 3]\<close> or \<open>[480, 640, 3]\<close>. One
  grab-frame call is issued per entry, in list order, and what \<^verbatim>\<open>read\<close> leaves is a
  session again, so this holds for every later call.
\<close>

theorem read_returns_views:
  assumes "session D cam"
  shows "\<exists>cam'. Camera_read D cam w =
           (Inr (cam', map (\<lambda>i. \<lparr>base = i, shape = [cam_h cam, cam_w cam, depth cam]\<rparr>)
                         (ids cam)),
            w\<lparr>calls := calls w @ map GrabFrame (ids cam)\<rparr>)
    \<and> session D cam' \<and> ids cam' = ids cam
    \<and> list_all (\<lambda>i. \<exists>buf. map_of (buffers cam') i = Some buf
          \<and> int (length buf) = cam_h cam * cam_w cam * depth cam) (ids cam)
    \<and> ([cam_h cam, cam_w cam, depth cam] = [240, 320, 3]
         \<or> [cam_h cam, cam_w cam, depth cam] = [480, 640, 3])"
proof -
  from assms have inv: "session_inv cam"
    by (rule session_invariant)
  from read_loop_views [OF inv subset_refl, of D "[]" w] obtain cam' where
    run: "Camera_read D cam w =
           (Inr (cam', map (\<lambda>i. \<lparr>base = i, shape = [cam_h cam, cam_w cam, depth cam]\<rparr>)
                         (ids cam)),
            w\<lparr>calls := calls w @ map GrabFrame (ids cam)\<rparr>)"
    and inv': "session_inv cam'" and eq: "cam' = cam\<lparr>buffers := buffers cam'\<rparr>"
    by (auto simp: Camera_read_def)
  have same: "ids cam' = ids cam" "cam_h cam' = cam_h cam" "cam_w cam' = cam_w cam"
    "depth cam' = depth cam"
    using arg_cong [OF eq, of ids] arg_cong [OF eq, of cam_h] arg_cong [OF eq, of cam_w]
      arg_cong [OF eq, of depth]
    by simp_all
  have s': "session D cam'"
    using assms run by (rule session.after_read)
  have bufs: "list_all (\<lambda>i. \<exists>buf. map_of (buffers cam') i = Some buf
          \<and> int (length buf) = cam_h cam * cam_w cam * depth cam) (ids cam)"
    using inv' unfolding session_inv_def same by (auto simp: list_all_iff)
  from session_inv_dims [OF inv] run s' same(1) bufs show ?thesis
    by auto
qed

theorem read_returns_views_witness:
  "session (deaf_driver 2 999) demo_cam
   \<and> (\<exists>cam'. Camera_read (deaf_driver 2 999) demo_cam demo_world =
         (Inr (cam', [\<lparr>base = 0, shape = [240, 320, 3]\<rparr>, \<lparr>base = 1, shape = [240, 320, 3]\<rparr>]),
          demo_world\<lparr>calls := calls demo_world @ [GrabFrame 0, GrabFrame 1]\<rparr>))"
proof -
  have s: "session (deaf_driver 2 999) demo_cam"
    using demo_init by (rule session.opened)
  from read_returns_views [OF s, of demo_world] show ?thesis
    using s by (auto simp: demo_cam_def)
qed

section \<open>Closing a session\<close>

text \<open>
  C7: on a session that is not yet ended, \<^verbatim>\<open>end\<close> issues one close per entry of the
  device list, in list order, then one uninit, and marks the session ended; on an ended
  session it issues no call and changes nothing. In both cases it returns normally.
\<close>

theorem end_is_idempotent:
  assumes "session D cam"
  shows "Camera_end cam w =
           (Inr (cam\<lparr>ended := True\<rparr>),
            if ended cam then w else w\<lparr>calls := calls w @ map Close (ids cam) @ [Uninit]\<rparr>)
    \<and> Camera_end (cam\<lparr>ended := True\<rparr>) w2 = (Inr (cam\<lparr>ended := True\<rparr>), w2)
    \<and> session D (cam\<lparr>ended := True\<rparr>)"
proof -
  from assms have "session_inv cam"
    by (rule session_invariant)
  then have f: "\<forall>i \<in> set (ids cam). fits_c_int i"
    by (simp add: session_inv_def)
  have first: "Camera_end cam w =
           (Inr (cam\<lparr>ended := True\<rparr>),
            if ended cam then w else w\<lparr>calls := calls w @ map Close (ids cam) @ [Uninit]\<rparr>)"
    using close_all_fits [OF f, of w]
    by (simp add: Camera_end_def bind_def ps3eye_uninit_def log_def ret_def)
  have again: "Camera_end (cam\<lparr>ended := True\<rparr>) w2 = (Inr (cam\<lparr>ended := True\<rparr>), w2)"
    by (simp add: Camera_end_def ret_def)
  from assms first have "session D (cam\<lparr>ended := True\<rparr>)"
    by (rule session.after_end)
  with first again show ?thesis
    by simp
qed

theorem end_is_idempotent_witness:
  "session (deaf_driver 2 999) demo_cam
   \<and> \<not> ended demo_cam
   \<and> Camera_end demo_cam demo_world =
       (Inr (demo_cam\<lparr>ended := True\<rparr>),
        demo_world\<lparr>calls := calls demo_world @ [Close 0, Close 1, Uninit]\<rparr>)
   \<and> Camera_end (demo_cam\<lparr>ended := True\<rparr>)
        (demo_world\<lparr>calls := calls demo_world @ [Close 0, Close 1, Uninit]\<rparr>) =
       (Inr (demo_cam\<lparr>ended := True\<rparr>),
        demo_world\<lparr>calls := calls demo_world @ [Close 0, Close 1, Uninit]\<rparr>)"
proof -
  have s: "session (deaf_driver 2 999) demo_cam"
    using demo_init by (rule session.opened)
  have e: "\<not> ended demo_cam" and i: "ids demo_cam = [0, 1]"
    by (simp_all add: demo_cam_def)
  from end_is_idempotent [OF s, of demo_world
      "demo_world\<lparr>calls := calls demo_world @ [Close 0, Close 1, Uninit]\<rparr>"]
  show ?thesis
    using s e i by simp
qed

section \<open>The device a write is sent to\<close>

text \<open>
  C2: the channel is seeded from the devices of the list, slot \<open>p\<close> from the device at
  position \<open>p\<close>, but a write to slot \<open>p\<close> passes \<open>p\<close> itself to the driver. In a
  session opened on the list \<open>[1]\<close>, the write \<^verbatim>\<open>cam.gain[0] = 42\<close> issues its set and
  get calls for device 0, not for device 1.
\<close>

theorem write_targets_slot_position:
  "(case Camera_init (deaf_driver 2 42) (Many [1]) RES_SMALL 60 True world0 of
      (Inl e, w1) \<Rightarrow> False
    | (Inr cam, w1) \<Rightarrow>
        ids cam = [1]
        \<and> (case Camera_setitem (deaf_driver 2 42) cam ''gain'' 0 (PyInt 42) w1 of
             (Inl e, w2) \<Rightarrow> False
           | (Inr cam', w2) \<Rightarrow>
               new_calls w1 w2 =
                 [SetParameter 0 PS3EYE_GAIN 42, GetParameter 0 PS3EYE_GAIN 42]
               \<and> warnings w2 = []))"
  by (simp add: run_simps Camera_setitem_def CtrlList_setitem_def list_setitem_def
      py_in_range py_eq_def new_calls_def)

end
